theory Spec2Isabelle
  imports Main
begin

section \<open>Service worker: data model\<close>

text \<open>
  The embedded program is the service worker (the second document of the source file):
  its \<open>install\<close>, \<open>activate\<close>, \<open>fetch\<close> and \<open>message\<close> handlers, the three strategies
  \<open>cacheFirst\<close>, \<open>networkFirst\<close>, \<open>staleWhileRevalidate\<close>, and \<open>limitCacheSize\<close>.

  A request is reduced to what the worker reads of it: the parts of \<open>new URL(request.url)\<close>
  and \<open>request.destination\<close>. A response is its status and its body. Requests are GET.
\<close>

record request =
  origin :: string
  pathname :: string
  search :: string
  destination :: string

record response =
  status :: nat
  body :: string

text \<open>The key under which the Cache API files a response: the request's URL.\<close>

type_synonym key = "string \<times> string \<times> string"

definition request_key :: "request \<Rightarrow> key" where
  "request_key req = (origin req, pathname req, search req)"

text \<open>
  A cache lists its entries in insertion order (what \<open>cache.keys()\<close> enumerates); the
  cache storage lists the named caches in creation order (what \<open>caches.keys()\<close> enumerates
  and \<open>caches.match\<close> searches).
\<close>

type_synonym cache = "(key \<times> response) list"
type_synonym cache_storage = "(string \<times> cache) list"

text \<open>
  What \<open>fetch\<close> does for a request: it resolves with a response, rejects, or never settles.
  A promise, seen once everything that can settle has settled.
\<close>

datatype net_outcome = Responds response | Rejects | Stalls

datatype 'a promise = Fulfilled 'a | Rejected | Pending

text \<open>
  The world the worker runs in. \<open>location_origin\<close>, \<open>net\<close> and \<open>delete_rejects\<close> are
  the environment (the worker's own origin, the network, and which \<open>cache.delete\<close> calls
  reject); \<open>caches\<close> is the cache storage; \<open>fetched\<close> records every call of \<open>fetch\<close>,
  \<open>console\<close> every line the worker logs (the literal first argument of the call), and the
  two flags record \<open>self.skipWaiting()\<close> and \<open>self.clients.claim()\<close>.
\<close>

record world =
  location_origin :: string
  net :: "request \<Rightarrow> net_outcome"
  delete_rejects :: "string \<Rightarrow> key \<Rightarrow> bool"
  caches :: cache_storage
  fetched :: "request list"
  console :: "string list"
  skip_waiting :: bool
  clients_claimed :: bool

section \<open>The platform: Cache, CacheStorage, fetch, console\<close>

text \<open>
  The worker calls the browser's Cache API; what it relies on is written out here, after
  the Service Workers specification. Two operations can fail in this model: a
  \<open>cache.delete\<close> that the environment makes reject, and a fetch (of a strategy, or of
  \<open>cache.addAll\<close>). \<open>caches.open\<close>, \<open>caches.match\<close>, \<open>caches.keys\<close>, \<open>caches.delete\<close>,
  \<open>cache.keys\<close> and \<open>cache.put\<close> always succeed.
\<close>

definition startsWith :: "string \<Rightarrow> string \<Rightarrow> bool" where
  "startsWith s p = (take (length p) s = p)"

definition has_cache :: "string \<Rightarrow> cache_storage \<Rightarrow> bool" where
  "has_cache n cs = (n \<in> set (map fst cs))"

definition cache_entries :: "string \<Rightarrow> cache_storage \<Rightarrow> cache" where
  "cache_entries n cs = (case map_of cs n of Some c \<Rightarrow> c | None \<Rightarrow> [])"

definition cache_keys :: "string \<Rightarrow> cache_storage \<Rightarrow> key list" where
  "cache_keys n cs = map fst (cache_entries n cs)"

definition update_cache :: "string \<Rightarrow> (cache \<Rightarrow> cache) \<Rightarrow> cache_storage \<Rightarrow> cache_storage" where
  "update_cache n f cs = map (\<lambda>(m, c). if m = n then (m, f c) else (m, c)) cs"

text \<open>\<open>cache.put\<close> replaces the entry of the same key; the new entry is the youngest.\<close>

definition put_entry :: "key \<Rightarrow> response \<Rightarrow> cache \<Rightarrow> cache" where
  "put_entry k r c = filter (\<lambda>e. fst e \<noteq> k) c @ [(k, r)]"

definition delete_entry :: "key \<Rightarrow> cache \<Rightarrow> cache" where
  "delete_entry k c = filter (\<lambda>e. fst e \<noteq> k) c"

text \<open>\<open>caches.match\<close> searches every cache, in creation order, and returns the first hit.\<close>

fun caches_match :: "cache_storage \<Rightarrow> key \<Rightarrow> response option" where
  "caches_match [] k = None"
| "caches_match ((n, c) # cs) k =
     (case map_of c k of Some r \<Rightarrow> Some r | None \<Rightarrow> caches_match cs k)"

text \<open>\<open>caches.open\<close> creates the cache when there is none of that name.\<close>

definition caches_open :: "string \<Rightarrow> world \<Rightarrow> world" where
  "caches_open n w =
     (if has_cache n (caches w) then w else w\<lparr>caches := caches w @ [(n, [])]\<rparr>)"

definition caches_delete :: "string \<Rightarrow> world \<Rightarrow> world" where
  "caches_delete n w = w\<lparr>caches := filter (\<lambda>(m, c). m \<noteq> n) (caches w)\<rparr>"

definition cache_put :: "string \<Rightarrow> key \<Rightarrow> response \<Rightarrow> world \<Rightarrow> world" where
  "cache_put n k r w = w\<lparr>caches := update_cache n (put_entry k r) (caches w)\<rparr>"

text \<open>\<open>cache.delete(key)\<close>: rejects where the environment says so, else removes the entry
  and resolves with whether there was one.\<close>

definition cache_delete :: "string \<Rightarrow> key \<Rightarrow> world \<Rightarrow> bool promise \<times> world" where
  "cache_delete n k w =
     (if delete_rejects w n k then (Rejected, w)
      else (Fulfilled (k \<in> set (cache_keys n (caches w))),
            w\<lparr>caches := update_cache n (delete_entry k) (caches w)\<rparr>))"

definition fetch :: "request \<Rightarrow> world \<Rightarrow> net_outcome \<times> world" where
  "fetch req w = (net w req, w\<lparr>fetched := fetched w @ [req]\<rparr>)"

definition console_log :: "string \<Rightarrow> world \<Rightarrow> world" where
  "console_log s w = w\<lparr>console := console w @ [s]\<rparr>"

text \<open>\<open>Promise.all\<close>: rejected as soon as one member rejects, pending while one is.\<close>

definition promise_all :: "'a promise list \<Rightarrow> 'a list promise" where
  "promise_all ps =
     (if Rejected \<in> set ps then Rejected
      else if Pending \<in> set ps then Pending
      else Fulfilled (List.map_filter (\<lambda>p. case p of Fulfilled x \<Rightarrow> Some x | _ \<Rightarrow> None) ps))"

section \<open>Constants of the worker\<close>

text \<open>
  \<open>CACHE_VERSION\<close> is a constant written into the file by the build; the handlers below
  take the version as their first argument, so that a statement holds for every build.
\<close>

definition CACHE_VERSION :: string where
  "CACHE_VERSION = ''dev-1772130527350''"

definition STATIC_CACHE :: "string \<Rightarrow> string" where
  "STATIC_CACHE ver = ''static-'' @ ver"

definition DYNAMIC_CACHE :: "string \<Rightarrow> string" where
  "DYNAMIC_CACHE ver = ''dynamic-'' @ ver"

definition IMAGE_CACHE :: "string \<Rightarrow> string" where
  "IMAGE_CACHE ver = ''images-'' @ ver"


definition LIMITS_images :: nat where
  "LIMITS_images = 50"

definition LIMITS_dynamic :: nat where
  "LIMITS_dynamic = 100"

text \<open>\<open>new Response('Offline', { status: 503 })\<close>\<close>

definition Offline_503 :: response where
  "Offline_503 = \<lparr>status = 503, body = ''Offline''\<rparr>"

section \<open>limitCacheSize\<close>

text \<open>
  \<open>toDelete.map(key => cache.delete(key))\<close> starts one deletion per key, in order; the
  promises are collected for \<open>Promise.all\<close>.
\<close>

fun delete_each :: "string \<Rightarrow> key list \<Rightarrow> world \<Rightarrow> bool promise list \<times> world" where
  "delete_each n [] w = ([], w)"
| "delete_each n (k # ks) w =
     (let (p, w1) = cache_delete n k w;
          (ps, w2) = delete_each n ks w1
      in (p # ps, w2))"

definition limitCacheSize :: "string \<Rightarrow> nat \<Rightarrow> world \<Rightarrow> unit promise \<times> world" where
  "limitCacheSize cacheName maxItems w =
     (let w1 = caches_open cacheName w;
          keys = cache_keys cacheName (caches w1)
      in if length keys > maxItems then
           (let toDelete = take (length keys - maxItems) keys;
                (ps, w2) = delete_each cacheName toDelete w1
            in (case promise_all ps of
                  Fulfilled _ \<Rightarrow> (Fulfilled (), w2)
                | Rejected \<Rightarrow> (Rejected, w2)
                | Pending \<Rightarrow> (Pending, w2)))
         else (Fulfilled (), w1))"

section \<open>The three strategies\<close>

text \<open>
  Each strategy returns the promise its caller gets and the world reached once everything
  it started has settled. \<open>cache.put\<close> and \<open>limitCacheSize\<close> are started without
  \<open>await\<close>: their outcome is dropped, their effect stays, and the strategy does not wait
  for either before it returns.

  After a 200, network-first and the fetch of stale-while-revalidate start the put and
  then the pass. The pass opens the cache and reads its keys at once; the put lands only
  when the body of the clone has been read. So the pass runs on the cache as it is
  without the new entry, and the put lands after it: a cache at its limit is left with
  one entry more than the limit.
\<close>

definition cacheFirst :: "request \<Rightarrow> string \<Rightarrow> world \<Rightarrow> response promise \<times> world" where
  "cacheFirst req cacheName w =
     (case caches_match (caches w) (request_key req) of
        Some cachedResponse \<Rightarrow> (Fulfilled cachedResponse, w)
      | None \<Rightarrow>
          (case fetch req w of
             (Responds networkResponse, w1) \<Rightarrow>
               (if status networkResponse = 200
                then (Fulfilled networkResponse,
                      cache_put cacheName (request_key req) networkResponse
                        (caches_open cacheName w1))
                else (Fulfilled networkResponse, w1))
           | (Stalls, w1) \<Rightarrow> (Pending, w1)
           | (Rejects, w1) \<Rightarrow>
               (let w2 = console_log ''[SW] Cache-first failed:'' w1
                in case caches_match (caches w2) (location_origin w2, ''/offline.html'', []) of
                     Some offlineResponse \<Rightarrow> (Fulfilled offlineResponse, w2)
                   | None \<Rightarrow> (Fulfilled Offline_503, w2))))"

definition networkFirst :: "request \<Rightarrow> string \<Rightarrow> world \<Rightarrow> response promise \<times> world" where
  "networkFirst req cacheName w =
     (case fetch req w of
        (Responds networkResponse, w1) \<Rightarrow>
          (if status networkResponse = 200
           then (let w2 = caches_open cacheName w1;
                     (_, w3) = limitCacheSize cacheName LIMITS_dynamic w2;
                     w4 = cache_put cacheName (request_key req) networkResponse w3
                 in (Fulfilled networkResponse, w4))
           else (Fulfilled networkResponse, w1))
      | (Stalls, w1) \<Rightarrow> (Pending, w1)
      | (Rejects, w1) \<Rightarrow>
          (let w2 = console_log ''[SW] Network failed, trying cache:'' w1
           in case caches_match (caches w2) (request_key req) of
                Some cachedResponse \<Rightarrow> (Fulfilled cachedResponse, w2)
              | None \<Rightarrow> (Fulfilled Offline_503, w2)))"

text \<open>
  \<open>fetchPromise\<close> of \<open>staleWhileRevalidate\<close>: the fetch, its \<open>then\<close> and its \<open>catch\<close>.
\<close>

definition fetchPromise :: "request \<Rightarrow> string \<Rightarrow> world \<Rightarrow> response promise \<times> world" where
  "fetchPromise req cacheName w =
     (case fetch req w of
        (Responds networkResponse, w1) \<Rightarrow>
          (if status networkResponse = 200
           then (let w2 = caches_open cacheName w1;
                     (_, w3) = limitCacheSize cacheName LIMITS_images w2;
                     w4 = cache_put cacheName (request_key req) networkResponse w3
                 in (Fulfilled networkResponse, w4))
           else (Fulfilled networkResponse, w1))
      | (Stalls, w1) \<Rightarrow> (Pending, w1)
      | (Rejects, w1) \<Rightarrow>
          (Fulfilled Offline_503, console_log ''[SW] Fetch failed:'' w1))"

definition staleWhileRevalidate :: "request \<Rightarrow> string \<Rightarrow> world \<Rightarrow> response promise \<times> world" where
  "staleWhileRevalidate req cacheName w =
     (let cachedResponse = caches_match (caches w) (request_key req);
          (p, w1) = fetchPromise req cacheName w
      in case cachedResponse of
           Some r \<Rightarrow> (Fulfilled r, w1)
         | None \<Rightarrow> (p, w1))"

section \<open>The event handlers\<close>



definition put_fetched :: "string \<Rightarrow> request \<Rightarrow> world \<Rightarrow> world" where
  "put_fetched n req w =
     (case net w req of Responds r \<Rightarrow> cache_put n (request_key req) r w | _ \<Rightarrow> w)"


text \<open>A path of \<open>STATIC_ASSETS\<close> as the request \<open>addAll\<close> makes of it.\<close>

definition asset_request :: "world \<Rightarrow> string \<Rightarrow> request" where
  "asset_request w p =
     \<lparr>origin = location_origin w, pathname = p, search = [], destination = []\<rparr>"


text \<open>The \<open>activate\<close> handler: the two filters over \<open>caches.keys()\<close>, then the deletions.\<close>

definition old_caches :: "string \<Rightarrow> string list \<Rightarrow> string list" where
  "old_caches ver cacheNames =
     filter (\<lambda>cacheName. cacheName \<noteq> STATIC_CACHE ver \<and>
                          cacheName \<noteq> DYNAMIC_CACHE ver \<and>
                          cacheName \<noteq> IMAGE_CACHE ver)
       (filter (\<lambda>cacheName. startsWith cacheName ''static-'' \<or>
                             startsWith cacheName ''dynamic-'' \<or>
                             startsWith cacheName ''images-'')
          cacheNames)"

definition activate_handler :: "string \<Rightarrow> world \<Rightarrow> world" where
  "activate_handler ver w =
     (let w1 = console_log ''[SW] Activating service worker...'' w;
          w2 = fold (\<lambda>cacheName v.
                       caches_delete cacheName (console_log ''[SW] Deleting old cache:'' v))
                 (old_caches ver (map fst (caches w1))) w1;
          w3 = console_log ''[SW] Service worker activated'' w2
      in w3\<lparr>clients_claimed := True\<rparr>)"

text \<open>
  The \<open>message\<close> handler. The argument is \<open>event.data.type\<close>, \<open>None\<close> when \<open>event.data\<close>
  is missing or has no type.
\<close>

definition message_handler :: "string option \<Rightarrow> world \<Rightarrow> world" where
  "message_handler msg w =
     (let w1 = console_log ''[SW] Message received:'' w;
          w2 = (if msg = Some ''SKIP_WAITING'' then w1\<lparr>skip_waiting := True\<rparr> else w1)
      in if msg = Some ''CLEAR_CACHE''
         then fold caches_delete (map fst (caches w2)) w2
         else w2)"

text \<open>
  The \<open>fetch\<close> handler: it returns without \<open>event.respondWith\<close> (the browser then handles
  the request itself), or responds with the promise of one strategy.
\<close>

datatype fetch_result = NotHandled | RespondWith "response promise"

definition respondWith :: "response promise \<times> world \<Rightarrow> fetch_result \<times> world" where
  "respondWith pw = (RespondWith (fst pw), snd pw)"

definition fetch_handler :: "string \<Rightarrow> request \<Rightarrow> world \<Rightarrow> fetch_result \<times> world" where
  "fetch_handler ver req w =
     (if origin req \<noteq> location_origin w then (NotHandled, w)
      else if startsWith (pathname req) ''/api/''
        then respondWith (networkFirst req (DYNAMIC_CACHE ver) w)
      else if destination req = ''image''
        then respondWith (staleWhileRevalidate req (IMAGE_CACHE ver) w)
      else if destination req = ''script'' \<or> destination req = ''style'' \<or>
              destination req = ''font'' \<or> destination req = ''document''
        then respondWith (cacheFirst req (STATIC_CACHE ver) w)
      else respondWith (networkFirst req (DYNAMIC_CACHE ver) w))"

section \<open>The dispatcher as the specification words it\<close>

text \<open>
  An ordered rule table of (predicate, strategy, role); the first rule whose predicate
  holds decides, and a request that matches none takes the default.
\<close>

datatype strategy = CacheFirst | NetworkFirst | StaleWhileRevalidate

datatype role = Static | Dynamic | Image

datatype action = Passthrough | Handle strategy role

definition rule_table :: "((string \<Rightarrow> request \<Rightarrow> bool) \<times> action) list" where
  "rule_table =
     [(\<lambda>here req. origin req \<noteq> here, Passthrough),
      (\<lambda>here req. startsWith (pathname req) ''/api/'', Handle NetworkFirst Dynamic),
      (\<lambda>here req. destination req = ''image'', Handle StaleWhileRevalidate Image),
      (\<lambda>here req. destination req = ''script'' \<or> destination req = ''style'' \<or>
                   destination req = ''font'' \<or> destination req = ''document'',
       Handle CacheFirst Static)]"

definition default_action :: action where
  "default_action = Handle NetworkFirst Dynamic"

fun first_match ::
  "((string \<Rightarrow> request \<Rightarrow> bool) \<times> action) list \<Rightarrow> string \<Rightarrow> request \<Rightarrow> action" where
  "first_match [] here req = default_action"
| "first_match ((applies, a) # rules) here req =
     (if applies here req then a else first_match rules here req)"

definition role_cache :: "string \<Rightarrow> role \<Rightarrow> string" where
  "role_cache ver r =
     (case r of Static \<Rightarrow> STATIC_CACHE ver | Dynamic \<Rightarrow> DYNAMIC_CACHE ver
      | Image \<Rightarrow> IMAGE_CACHE ver)"

definition run_strategy ::
  "strategy \<Rightarrow> request \<Rightarrow> string \<Rightarrow> world \<Rightarrow> response promise \<times> world" where
  "run_strategy s req cacheName w =
     (case s of
        CacheFirst \<Rightarrow> cacheFirst req cacheName w
      | NetworkFirst \<Rightarrow> networkFirst req cacheName w
      | StaleWhileRevalidate \<Rightarrow> staleWhileRevalidate req cacheName w)"

definition run_action :: "string \<Rightarrow> action \<Rightarrow> request \<Rightarrow> world \<Rightarrow> fetch_result \<times> world" where
  "run_action ver a req w =
     (case a of
        Passthrough \<Rightarrow> (NotHandled, w)
      | Handle s r \<Rightarrow> respondWith (run_strategy s req (role_cache ver r) w))"

section \<open>Notions used in the statements\<close>

text \<open>
  \<open>toDelete\<close> is the local of that name in \<open>limitCacheSize\<close>, read in the world the
  function starts in; \<open>surviving\<close> is what a cache keeps when the keys \<open>ks\<close> are deleted
  and the deletions of the keys in \<open>rejects\<close> reject.
\<close>

definition toDelete :: "string \<Rightarrow> nat \<Rightarrow> world \<Rightarrow> key list" where
  "toDelete cacheName maxItems w =
     take (length (cache_keys cacheName (caches w)) - maxItems) (cache_keys cacheName (caches w))"

definition surviving :: "(key \<Rightarrow> bool) \<Rightarrow> key list \<Rightarrow> cache \<Rightarrow> cache" where
  "surviving rejects ks c = filter (\<lambda>e. fst e \<notin> set ks \<or> rejects (fst e)) c"

text \<open>
  The reading of "stale" by role and version: the name carries one of the three role
  prefixes, and what follows the prefix is not the current version.
\<close>

definition role_prefixes :: "string list" where
  "role_prefixes = [''static-'', ''dynamic-'', ''images-'']"

definition stale_version :: "string \<Rightarrow> string \<Rightarrow> bool" where
  "stale_version ver cacheName =
     list_ex (\<lambda>p. startsWith cacheName p \<and> drop (length p) cacheName \<noteq> ver) role_prefixes"

text \<open>The world of the \<open>install\<close> handler at the moment it calls \<open>addAll\<close>.\<close>

definition installing :: "string \<Rightarrow> world \<Rightarrow> world" where
  "installing ver w =
     console_log ''[SW] Caching static assets''
       (caches_open (STATIC_CACHE ver)
         (console_log ''[SW] Precache manifest:''
           (console_log ''[SW] Installing service worker...'' w)))"

section \<open>Example worlds\<close>

text \<open>
  Concrete requests and worlds, on which the statements below are evaluated. All of them
  live on one origin; \<open>offline_world\<close> has empty caches and a network that rejects
  every fetch.
\<close>

definition here :: string where
  "here = ''https://app.example''"

definition url_key :: "string \<Rightarrow> key" where
  "url_key p = (here, p, [])"

definition get_request :: "string \<Rightarrow> string \<Rightarrow> request" where
  "get_request p d = \<lparr>origin = here, pathname = p, search = [], destination = d\<rparr>"

definition ok_response :: "string \<Rightarrow> response" where
  "ok_response b = \<lparr>status = 200, body = b\<rparr>"

definition offline_world :: world where
  "offline_world =
     \<lparr>location_origin = here, net = (\<lambda>req. Rejects), delete_rejects = (\<lambda>n k. False),
      caches = [], fetched = [], console = [], skip_waiting = False, clients_claimed = False\<rparr>"

text \<open>An image cache filled by four writes, in the order A, B, C, D.\<close>

definition abcd_world :: world where
  "abcd_world =
     cache_put ''images-v1'' (url_key ''/d.png'') (ok_response ''D'')
       (cache_put ''images-v1'' (url_key ''/c.png'') (ok_response ''C'')
         (cache_put ''images-v1'' (url_key ''/b.png'') (ok_response ''B'')
           (cache_put ''images-v1'' (url_key ''/a.png'') (ok_response ''A'')
             (caches_open ''images-v1'' offline_world))))"

text \<open>A network that answers every request with a 200 whose body is the path.\<close>

definition online_world :: world where
  "online_world = offline_world\<lparr>net := \<lambda>req. Responds (ok_response (pathname req))\<rparr>"

definition app_js :: request where
  "app_js = get_request ''/app.js'' ''script''"

definition logo :: request where
  "logo = get_request ''/logo.png'' ''image''"

text \<open>The script is in the dynamic cache and not in the static cache.\<close>

definition shadow_world :: world where
  "shadow_world =
     online_world\<lparr>caches := [(''static-v1'', []),
                              (''dynamic-v1'', [(url_key ''/app.js'', ok_response ''old'')])]\<rparr>"

text \<open>A cached image, and a network whose fetches never settle.\<close>

definition stalled_world :: world where
  "stalled_world =
     offline_world\<lparr>net := \<lambda>req. Stalls,
                    caches := [(''images-v1'', [(url_key ''/logo.png'', ok_response ''stale'')])]\<rparr>"




text \<open>The same cached image, and a network that answers 404.\<close>

definition not_found :: response where
  "not_found = \<lparr>status = 404, body = ''Not Found''\<rparr>"

definition not_found_world :: world where
  "not_found_world = stalled_world\<lparr>net := \<lambda>req. Responds not_found\<rparr>"

text \<open>The four images again; the deletion of the oldest one rejects.\<close>

definition faulty_world :: world where
  "faulty_world = abcd_world\<lparr>delete_rejects := \<lambda>n k. k = url_key ''/a.png''\<rparr>"

text \<open>Caches of version \<open>v1\<close>, a cache of another application, and one of version \<open>v2\<close>.\<close>

definition purge_world :: world where
  "purge_world =
     offline_world\<lparr>caches := [(''static-v1'', [(url_key ''/'', ok_response ''home'')]),
                               (''dynamic-v1'', []),
                               (''images-v1'', []),
                               (''unrelated-foo'', [(url_key ''/x'', ok_response ''x'')]),
                               (''static-v2'', [(url_key ''/'', ok_response ''home2'')])]\<rparr>"


definition api_users :: request where
  "api_users = get_request ''/api/users'' []"

definition api_avatar :: request where
  "api_avatar = get_request ''/api/avatar.png'' ''image''"

definition ping :: request where
  "ping = get_request ''/ping'' []"

definition elsewhere :: request where
  "elsewhere =
     \<lparr>origin = ''https://cdn.example'', pathname = ''/api/lib.js'', search = [],
      destination = ''script''\<rparr>"

section \<open>Lemmas: the cache storage\<close>

lemma update_cache_id: "(\<And>c. f c = c) \<Longrightarrow> update_cache n f cs = cs"
  by (induction cs) (auto simp: update_cache_def)

lemma update_cache_comp: "update_cache n f (update_cache n g cs) = update_cache n (\<lambda>c. f (g c)) cs"
  by (induction cs) (auto simp: update_cache_def)

lemma has_cache_update [simp]: "has_cache m (update_cache n f cs) = has_cache m cs"
  by (induction cs) (auto simp: update_cache_def has_cache_def)

lemma cache_entries_update_same:
  "has_cache n cs \<Longrightarrow> cache_entries n (update_cache n f cs) = f (cache_entries n cs)"
  by (induction cs) (auto simp: update_cache_def has_cache_def cache_entries_def)

lemma cache_entries_update_other:
  "m \<noteq> n \<Longrightarrow> cache_entries m (update_cache n f cs) = cache_entries m cs"
  by (induction cs) (auto simp: update_cache_def cache_entries_def)

lemma caches_open_has [simp]: "has_cache n (caches (caches_open n w))"
  by (simp add: caches_open_def has_cache_def)

lemma cache_entries_open [simp]:
  "cache_entries m (caches (caches_open n w)) = cache_entries m (caches w)"
proof (cases "has_cache n (caches w)")
  case True
  then show ?thesis by (simp add: caches_open_def)
next
  case False
  then have "map_of (caches w) n = None"
    by (simp add: has_cache_def map_of_eq_None_iff)
  then show ?thesis using False
    by (cases "map_of (caches w) m") (auto simp: caches_open_def cache_entries_def map_add_def)
qed

lemma caches_open_env [simp]:
  "delete_rejects (caches_open n w) = delete_rejects w"
  "console (caches_open n w) = console w"
  "fetched (caches_open n w) = fetched w"
  "net (caches_open n w) = net w"
  "location_origin (caches_open n w) = location_origin w"
  by (simp_all add: caches_open_def)

lemma cache_put_frame [simp]:
  "console (cache_put n k r w) = console w"
  "fetched (cache_put n k r w) = fetched w"
  "delete_rejects (cache_put n k r w) = delete_rejects w"
  "caches (cache_put n k r w) = update_cache n (put_entry k r) (caches w)"
  by (simp_all add: cache_put_def)

lemma cache_put_env [simp]:
  "net (cache_put n k r w) = net w"
  "location_origin (cache_put n k r w) = location_origin w"
  by (simp_all add: cache_put_def)

lemma console_log_frame [simp]:
  "caches (console_log s w) = caches w"
  "fetched (console_log s w) = fetched w"
  "net (console_log s w) = net w"
  "location_origin (console_log s w) = location_origin w"
  "delete_rejects (console_log s w) = delete_rejects w"
  by (simp_all add: console_log_def)

lemma console_log_console [simp]: "console (console_log s w) = console w @ [s]"
  by (simp add: console_log_def)

lemma fetch_simps [simp]:
  "fst (fetch req w) = net w req"
  "snd (fetch req w) = w\<lparr>fetched := fetched w @ [req]\<rparr>"
  by (simp_all add: fetch_def)

lemma put_entry_distinct:
  "distinct (map fst c) \<Longrightarrow> distinct (map fst (put_entry k r c))"
  by (induction c) (auto simp: put_entry_def)

lemma delete_entry_distinct:
  "distinct (map fst c) \<Longrightarrow> distinct (map fst (delete_entry k c))"
  by (induction c) (auto simp: delete_entry_def)




lemma caches_delete_caches:
  "caches (caches_delete n w) = filter (\<lambda>(m, c). m \<noteq> n) (caches w)"
  by (simp add: caches_delete_def)

lemma caches_fold_delete_logged:
  "caches (fold (\<lambda>n v. caches_delete n (console_log s v)) ns w) =
     filter (\<lambda>(m, c). m \<notin> set ns) (caches w)"
proof (induction ns arbitrary: w)
  case Nil
  show ?case by simp
next
  case (Cons n ns)
  show ?case
    by (simp add: Cons caches_delete_caches case_prod_unfold conj_commute)
qed

lemma caches_fold_delete:
  "caches (fold caches_delete ns w) = filter (\<lambda>(m, c). m \<notin> set ns) (caches w)"
proof (induction ns arbitrary: w)
  case Nil
  show ?case by simp
next
  case (Cons n ns)
  show ?case
    by (simp add: Cons caches_delete_caches case_prod_unfold conj_commute)
qed

section \<open>Lemmas: eviction\<close>

lemma delete_each_world:
  "snd (delete_each n ks w) = w\<lparr>caches := update_cache n (surviving (delete_rejects w n) ks) (caches w)\<rparr>"
proof (induction ks arbitrary: w)
  case Nil
  show ?case by (simp add: surviving_def update_cache_id)
next
  case (Cons k ks)
  show ?case
  proof (cases "delete_rejects w n k")
    case True
    have "surviving (delete_rejects w n) (k # ks) = surviving (delete_rejects w n) ks"
      using True by (auto simp: surviving_def fun_eq_iff intro: filter_cong)
    then show ?thesis using True Cons[of w]
      by (simp add: cache_delete_def case_prod_unfold Let_def)
  next
    case False
    let ?w1 = "w\<lparr>caches := update_cache n (delete_entry k) (caches w)\<rparr>"
    have s: "(\<lambda>c. surviving (delete_rejects w n) ks (delete_entry k c)) = surviving (delete_rejects w n) (k # ks)"
      using False by (auto simp: surviving_def delete_entry_def fun_eq_iff intro: filter_cong)
    show ?thesis using False Cons[of ?w1]
      by (simp add: cache_delete_def update_cache_comp s case_prod_unfold Let_def)
  qed
qed

lemma delete_each_rejected:
  "Rejected \<in> set (fst (delete_each n ks w)) \<longleftrightarrow> (\<exists>k \<in> set ks. delete_rejects w n k)"
proof (induction ks arbitrary: w)
  case Nil
  show ?case by simp
next
  case (Cons k ks)
  show ?case
    using Cons[of w] Cons[of "w\<lparr>caches := update_cache n (delete_entry k) (caches w)\<rparr>"]
    by (auto simp: cache_delete_def case_prod_unfold Let_def split: if_splits)
qed

lemma delete_each_not_pending: "Pending \<notin> set (fst (delete_each n ks w))"
proof (induction ks arbitrary: w)
  case Nil
  show ?case by simp
next
  case (Cons k ks)
  show ?case
    using Cons[of w] Cons[of "w\<lparr>caches := update_cache n (delete_entry k) (caches w)\<rparr>"]
    by (auto simp: cache_delete_def case_prod_unfold Let_def split: if_splits)
qed

lemma filter_oldest:
  "distinct (map fst c) \<Longrightarrow> filter (\<lambda>e. fst e \<notin> set (take m (map fst c))) c = drop m c"
proof (induction c arbitrary: m)
  case Nil
  show ?case by simp
next
  case (Cons e c)
  show ?case
  proof (cases m)
    case 0
    then show ?thesis by simp
  next
    case (Suc j)
    have "filter (\<lambda>x. fst x \<noteq> fst e \<and> fst x \<notin> set (take j (map fst c))) c
        = filter (\<lambda>x. fst x \<notin> set (take j (map fst c))) c"
      proof (intro filter_cong refl)
      fix x assume "x \<in> set c"
      then have "fst x \<in> set (map fst c)" by simp
      moreover from Cons.prems have "fst e \<notin> set (map fst c)" by simp
      ultimately have "fst x \<noteq> fst e" by metis
      then show "(fst x \<noteq> fst e \<and> fst x \<notin> set (take j (map fst c))) =
            (fst x \<notin> set (take j (map fst c)))" by simp
    qed
    then show ?thesis using Cons Suc by simp
  qed
qed

lemma promise_all_delete_each:
  "promise_all (fst (delete_each n ks w)) = Rejected \<longleftrightarrow> (\<exists>k \<in> set ks. delete_rejects w n k)"
  "promise_all (fst (delete_each n ks w)) \<noteq> Pending"
  using delete_each_rejected[of n ks w] delete_each_not_pending[of n ks w]
  by (auto simp: promise_all_def)

lemma limitCacheSize_world:
  "snd (limitCacheSize n m w) =
     (caches_open n w)\<lparr>caches := update_cache n (surviving (delete_rejects w n) (toDelete n m w)) (caches (caches_open n w))\<rparr>"
proof (cases "m < length (cache_keys n (caches w))")
  case True
  then show ?thesis
    by (simp add: limitCacheSize_def Let_def case_prod_unfold cache_keys_def toDelete_def
        delete_each_world surviving_def split: promise.splits)
next
  case False
  then have "toDelete n m w = []" by (simp add: toDelete_def)
  then have "update_cache n (surviving (delete_rejects w n) (toDelete n m w)) (caches (caches_open n w)) = caches (caches_open n w)"
    by (simp add: surviving_def update_cache_id)
  then show ?thesis using False
    by (simp add: limitCacheSize_def Let_def cache_keys_def)
qed

lemma limitCacheSize_entries:
  "cache_entries n (caches (snd (limitCacheSize n m w))) =
     surviving (delete_rejects w n) (toDelete n m w) (cache_entries n (caches w))"
  by (simp add: limitCacheSize_world cache_entries_update_same)

lemma limitCacheSize_promise:
  "fst (limitCacheSize n m w) =
     (if \<exists>k \<in> set (toDelete n m w). delete_rejects w n k then Rejected else Fulfilled ())"
proof (cases "m < length (cache_keys n (caches w))")
  case True
  let ?P = "promise_all (fst (delete_each n (toDelete n m w) (caches_open n w)))"
  have f: "fst (limitCacheSize n m w) =
      (case ?P of Fulfilled _ \<Rightarrow> Fulfilled () | Rejected \<Rightarrow> Rejected | Pending \<Rightarrow> Pending)"
    using True
    by (simp add: limitCacheSize_def Let_def case_prod_unfold cache_keys_def toDelete_def
        split: promise.splits)
  show ?thesis
    using promise_all_delete_each[of n "toDelete n m w" "caches_open n w"]
    unfolding f by (cases ?P) auto
next
  case False
  then have "toDelete n m w = []" by (simp add: toDelete_def)
  then show ?thesis using False
    by (simp add: limitCacheSize_def Let_def cache_keys_def)
qed

lemma limitCacheSize_caches_fetched:
  "caches (snd (limitCacheSize n m (w\<lparr>fetched := f\<rparr>))) = caches (snd (limitCacheSize n m w))"
  by (simp add: limitCacheSize_world caches_open_def toDelete_def)

lemma limitCacheSize_frame [simp]:
  "console (snd (limitCacheSize n m w)) = console w"
  "fetched (snd (limitCacheSize n m w)) = fetched w"
  by (simp_all add: limitCacheSize_world)

lemma limitCacheSize_has_cache: "has_cache n (caches (snd (limitCacheSize n m w)))"
  by (simp add: limitCacheSize_world)

lemma limitCacheSize_entries_other:
  "m' \<noteq> n \<Longrightarrow>
     cache_entries m' (caches (snd (limitCacheSize n m w))) = cache_entries m' (caches w)"
  by (simp add: limitCacheSize_world cache_entries_update_other)

lemma toDelete_open: "toDelete n m (caches_open n w) = toDelete n m w"
  by (simp add: toDelete_def cache_keys_def)


text \<open>The pass on the cache as it is, then the put: what the target cache holds.\<close>

lemma put_after_pass_entries:
  "cache_entries n (caches (cache_put n k r (snd (limitCacheSize n m (caches_open n w))))) =
     put_entry k r
       (surviving (delete_rejects w n) (toDelete n m w) (cache_entries n (caches w)))"
  by (simp add: cache_entries_update_same limitCacheSize_has_cache limitCacheSize_entries
      toDelete_open)



lemma networkFirst_stored:
  assumes "net w req = Responds r" and "status r = 200"
  shows "caches (snd (networkFirst req cacheName w)) =
     caches (cache_put cacheName (request_key req) r
               (snd (limitCacheSize cacheName LIMITS_dynamic (caches_open cacheName w))))"
proof -
  have "caches_open cacheName (w\<lparr>fetched := fetched w @ [req]\<rparr>) =
      (caches_open cacheName w)\<lparr>fetched := fetched w @ [req]\<rparr>"
    by (simp add: caches_open_def)
  then show ?thesis
    using assms
    by (simp add: networkFirst_def fetch_def case_prod_unfold Let_def
        limitCacheSize_caches_fetched)
qed

text \<open>
  Network-first after a 200, on the dynamic cache with its limit of 100: the pass on the
  cache as it is, then the new entry as the youngest.
\<close>

lemma networkFirst_entries:
  assumes "net w req = Responds r" and "status r = 200"
  shows "cache_entries cacheName (caches (snd (networkFirst req cacheName w))) =
           put_entry (request_key req) r
             (filter (\<lambda>e. fst e \<notin> set (toDelete cacheName 100 w)
                           \<or> delete_rejects w cacheName (fst e))
                (cache_entries cacheName (caches w)))"
    and "m \<noteq> cacheName \<Longrightarrow>
           cache_entries m (caches (snd (networkFirst req cacheName w))) =
             cache_entries m (caches w)"
  unfolding networkFirst_stored [OF assms] put_after_pass_entries
  by (simp_all add: LIMITS_dynamic_def surviving_def cache_entries_update_other
      limitCacheSize_entries_other)

section \<open>Lemmas: cache names and versions\<close>

lemma startsWith_split: "startsWith s p \<Longrightarrow> \<exists>t. s = p @ t"
  unfolding startsWith_def by (metis append_take_drop_id)

lemma old_static:
  "(''static-'' @ t \<noteq> STATIC_CACHE ver \<and> ''static-'' @ t \<noteq> DYNAMIC_CACHE ver \<and>
    ''static-'' @ t \<noteq> IMAGE_CACHE ver) = (t \<noteq> ver)"
  "stale_version ver (''static-'' @ t) = (t \<noteq> ver)"
  by (simp_all add: STATIC_CACHE_def DYNAMIC_CACHE_def IMAGE_CACHE_def stale_version_def
      role_prefixes_def startsWith_def)

lemma old_dynamic:
  "(''dynamic-'' @ t \<noteq> STATIC_CACHE ver \<and> ''dynamic-'' @ t \<noteq> DYNAMIC_CACHE ver \<and>
    ''dynamic-'' @ t \<noteq> IMAGE_CACHE ver) = (t \<noteq> ver)"
  "stale_version ver (''dynamic-'' @ t) = (t \<noteq> ver)"
  by (simp_all add: STATIC_CACHE_def DYNAMIC_CACHE_def IMAGE_CACHE_def stale_version_def
      role_prefixes_def startsWith_def)

lemma old_images:
  "(''images-'' @ t \<noteq> STATIC_CACHE ver \<and> ''images-'' @ t \<noteq> DYNAMIC_CACHE ver \<and>
    ''images-'' @ t \<noteq> IMAGE_CACHE ver) = (t \<noteq> ver)"
  "stale_version ver (''images-'' @ t) = (t \<noteq> ver)"
  by (simp_all add: STATIC_CACHE_def DYNAMIC_CACHE_def IMAGE_CACHE_def stale_version_def
      role_prefixes_def startsWith_def)

lemma old_caches_iff:
  "cacheName \<in> set (old_caches ver cacheNames) \<longleftrightarrow>
     cacheName \<in> set cacheNames \<and> stale_version ver cacheName"
proof -
  consider (s) t where "cacheName = ''static-'' @ t"
    | (d) t where "cacheName = ''dynamic-'' @ t"
    | (i) t where "cacheName = ''images-'' @ t"
    | (none) "\<not> startsWith cacheName ''static-''" "\<not> startsWith cacheName ''dynamic-''"
        "\<not> startsWith cacheName ''images-''"
    using startsWith_split by blast
  then show ?thesis
  proof cases
    case s
    have "startsWith (''static-'' @ t) ''static-''" by (simp add: startsWith_def)
    then show ?thesis using old_static[where t=t and ver=ver] unfolding s old_caches_def by simp
  next
    case d
    have "startsWith (''dynamic-'' @ t) ''dynamic-''" by (simp add: startsWith_def)
    then show ?thesis using old_dynamic[where t=t and ver=ver] unfolding d old_caches_def by simp
  next
    case i
    have "startsWith (''images-'' @ t) ''images-''" by (simp add: startsWith_def)
    then show ?thesis using old_images[where t=t and ver=ver] unfolding i old_caches_def by simp
  next
    case none
    then show ?thesis by (simp add: old_caches_def stale_version_def role_prefixes_def)
  qed
qed

lemma clear_cache_caches: "caches (message_handler (Some ''CLEAR_CACHE'') w) = []"
proof -
  have "filter (\<lambda>(m, c). m \<notin> set (map fst cs)) cs = []" for cs :: cache_storage
    by (force simp: filter_empty_conv)
  then show ?thesis
    by (simp add: message_handler_def Let_def caches_fold_delete)
qed

section \<open>Lemmas: install\<close>

lemma asset_request_log [simp]:
  "asset_request (console_log s w) = asset_request w"
  "asset_request (caches_open n w) = asset_request w"
  by (simp_all add: fun_eq_iff asset_request_def)



lemma installing_frame [simp]:
  "net (installing ver w) = net w"
  "asset_request (installing ver w) = asset_request w"
  "caches (installing ver w) = caches (caches_open (STATIC_CACHE ver) w)"
  "console (installing ver w) =
     console w @ [''[SW] Installing service worker...'', ''[SW] Precache manifest:'',
                  ''[SW] Caching static assets'']"
  by (simp_all add: installing_def) (simp add: caches_open_def console_log_def)




lemma put_fetched_responds:
  "net w req = Responds r \<Longrightarrow> put_fetched n req w = cache_put n (request_key req) r w"
  by (simp add: put_fetched_def)


section \<open>Lemmas: the example worlds\<close>

lemma url_key_eq: "(url_key p = url_key q) = (p = q)"
  by (simp add: url_key_def)

lemma request_key_get: "request_key (get_request p d) = url_key p"
  by (simp add: request_key_def get_request_def url_key_def)

lemma request_keys:
  "request_key logo = url_key ''/logo.png''"
  "request_key api_users = url_key ''/api/users''"
  "request_key app_js = url_key ''/app.js''"
  by (simp_all add: logo_def api_users_def app_js_def request_key_get)

lemma offline_facts:
  "net offline_world req = Rejects"
  "caches_match (caches offline_world) k = None"
  "location_origin offline_world = here"
  by (simp_all add: offline_world_def)

lemma online_match: "caches_match (caches online_world) k = None"
  by (simp add: online_world_def offline_world_def)

lemma online_net: "net online_world req = Responds (ok_response (pathname req))"
  by (simp add: online_world_def)

lemma abcd_caches:
  "caches abcd_world =
     [(''images-v1'', [(url_key ''/a.png'', ok_response ''A''), (url_key ''/b.png'', ok_response ''B''),
                       (url_key ''/c.png'', ok_response ''C''), (url_key ''/d.png'', ok_response ''D'')])]"
  by (simp add: abcd_world_def cache_put_def caches_open_def offline_world_def has_cache_def
      update_cache_def put_entry_def url_key_def)

lemma abcd_env: "delete_rejects abcd_world = (\<lambda>n k. False)"
  by (simp add: abcd_world_def cache_put_def caches_open_def offline_world_def has_cache_def)

lemma shadow_match:
  "caches_match (caches shadow_world) (request_key app_js) = Some (ok_response ''old'')"
  by (simp add: shadow_world_def app_js_def get_request_def request_key_def url_key_def)

lemma shadow_net: "net shadow_world req = Responds (ok_response (pathname req))"
  by (simp add: shadow_world_def online_world_def)

lemma shadow_fetched: "fetched shadow_world = []"
  by (simp add: shadow_world_def online_world_def offline_world_def)

lemma stalled_facts:
  "net stalled_world req = Stalls"
  "caches stalled_world = [(''images-v1'', [(url_key ''/logo.png'', ok_response ''stale'')])]"
  "caches_match (caches stalled_world) (request_key logo) = Some (ok_response ''stale'')"
  by (simp_all add: stalled_world_def request_keys)




lemma not_found_facts:
  "net not_found_world req = Responds not_found"
  "caches not_found_world = [(''images-v1'', [(url_key ''/logo.png'', ok_response ''stale'')])]"
  "caches_match (caches not_found_world) (request_key logo) = Some (ok_response ''stale'')"
  "caches_match (caches not_found_world) (request_key api_users) = None"
  by (simp_all add: not_found_world_def stalled_world_def request_keys url_key_eq)

lemma faulty_facts:
  "caches faulty_world = caches abcd_world"
  "console faulty_world = []"
  "delete_rejects faulty_world n k = (k = url_key ''/a.png'')"
  by (simp_all add: faulty_world_def abcd_world_def cache_put_def caches_open_def offline_world_def)

lemma faulty_entries:
  "cache_entries ''images-v1'' (caches faulty_world) =
     [(url_key ''/a.png'', ok_response ''A''), (url_key ''/b.png'', ok_response ''B''),
      (url_key ''/c.png'', ok_response ''C''), (url_key ''/d.png'', ok_response ''D'')]"
  by (simp add: faulty_facts abcd_caches cache_entries_def)

lemma faulty_toDelete:
  "toDelete ''images-v1'' 2 faulty_world = [url_key ''/a.png'', url_key ''/b.png'']"
  by (simp add: toDelete_def cache_keys_def faulty_entries)

lemma purge_caches:
  "caches purge_world =
     [(''static-v1'', [(url_key ''/'', ok_response ''home'')]),
      (''dynamic-v1'', []),
      (''images-v1'', []),
      (''unrelated-foo'', [(url_key ''/x'', ok_response ''x'')]),
      (''static-v2'', [(url_key ''/'', ok_response ''home2'')])]"
  by (simp add: purge_world_def)



section \<open>The claims\<close>

subsection \<open>C1: the dispatcher\<close>

text \<open>
  C1. The \<open>fetch\<close> handler is the rule table read top to bottom, first match winning:
  a cross-origin request is not responded to; else a path starting with \<open>/api/\<close> goes to
  network-first on the dynamic cache; else destination \<open>image\<close> goes to
  stale-while-revalidate on the image cache; else destination script, style, font or
  document goes to cache-first on the static cache; every other request goes to
  network-first on the dynamic cache.
\<close>

theorem fetch_handler_first_match:
  "fetch_handler ver req w =
     run_action ver (first_match rule_table (location_origin w) req) req w
   \<and> (origin req \<noteq> location_origin w \<longrightarrow> fetch_handler ver req w = (NotHandled, w))
   \<and> (origin req = location_origin w \<longrightarrow>
        (startsWith (pathname req) ''/api/'' \<longrightarrow>
           fetch_handler ver req w = respondWith (networkFirst req (DYNAMIC_CACHE ver) w))
        \<and> (\<not> startsWith (pathname req) ''/api/'' \<longrightarrow>
             (destination req = ''image'' \<longrightarrow>
                fetch_handler ver req w =
                  respondWith (staleWhileRevalidate req (IMAGE_CACHE ver) w))
             \<and> (destination req \<in> {''script'', ''style'', ''font'', ''document''} \<longrightarrow>
                  fetch_handler ver req w = respondWith (cacheFirst req (STATIC_CACHE ver) w))
             \<and> (destination req \<notin> {''image'', ''script'', ''style'', ''font'', ''document''} \<longrightarrow>
                  fetch_handler ver req w =
                    respondWith (networkFirst req (DYNAMIC_CACHE ver) w))))"
proof -
  have table: "fetch_handler ver req w =
      run_action ver (first_match rule_table (location_origin w) req) req w"
    by (simp add: fetch_handler_def rule_table_def run_action_def run_strategy_def
        role_cache_def default_action_def)
  have cases: "destination req \<in> {''script'', ''style'', ''font'', ''document''} \<Longrightarrow>
      destination req \<noteq> ''image''"
    by auto
  show ?thesis
    using cases by (simp add: table [symmetric]) (auto simp: fetch_handler_def)
qed

text \<open>
  One request for each rule. The order decides: a script under \<open>/api/\<close> on another origin
  is not handled, and a same-origin image under \<open>/api/\<close> is served network-first.
\<close>

theorem fetch_handler_first_match_witness:
  "fetch_handler ''v1'' elsewhere offline_world = (NotHandled, offline_world)
   \<and> fetch_handler ''v1'' api_avatar offline_world =
       respondWith (networkFirst api_avatar (DYNAMIC_CACHE ''v1'') offline_world)
   \<and> fetch_handler ''v1'' logo offline_world =
       respondWith (staleWhileRevalidate logo (IMAGE_CACHE ''v1'') offline_world)
   \<and> fetch_handler ''v1'' app_js offline_world =
       respondWith (cacheFirst app_js (STATIC_CACHE ''v1'') offline_world)
   \<and> fetch_handler ''v1'' ping offline_world =
       respondWith (networkFirst ping (DYNAMIC_CACHE ''v1'') offline_world)"
proof -
  have o: "location_origin offline_world = here"
    by (simp add: offline_world_def)
  have 1: "origin elsewhere \<noteq> here"
    by (simp add: elsewhere_def here_def)
  have 2: "origin api_avatar = here" "startsWith (pathname api_avatar) ''/api/''"
    by (simp_all add: api_avatar_def get_request_def startsWith_def)
  have 3: "origin logo = here" "\<not> startsWith (pathname logo) ''/api/''"
    "destination logo = ''image''"
    by (simp_all add: logo_def get_request_def startsWith_def)
  have 4: "origin app_js = here" "\<not> startsWith (pathname app_js) ''/api/''"
    "destination app_js = ''script''"
    by (simp_all add: app_js_def get_request_def startsWith_def)
  have 5: "origin ping = here" "\<not> startsWith (pathname ping) ''/api/''"
    "destination ping = []"
    by (simp_all add: ping_def get_request_def startsWith_def)
  show ?thesis
    using fetch_handler_first_match [of "''v1''" elsewhere offline_world, THEN conjunct2]
      fetch_handler_first_match [of "''v1''" api_avatar offline_world, THEN conjunct2]
      fetch_handler_first_match [of "''v1''" logo offline_world, THEN conjunct2]
      fetch_handler_first_match [of "''v1''" app_js offline_world, THEN conjunct2]
      fetch_handler_first_match [of "''v1''" ping offline_world, THEN conjunct2]
    by (simp add: o 1 2 3 4 5)
qed

subsection \<open>C2: cache-first\<close>

text \<open>
  C2, as the code has it. Cache-first looks the request up with \<open>caches.match\<close>, in every
  cache of the storage and not only in the cache it is given. When some cache holds a
  response, that response is returned, nothing is fetched and nothing changes. When no
  cache holds one, the network is fetched once, and the response of the network, when
  there is one, is returned. The cache storage changes only when no cache held the
  request and the network answered with status 200: then the response is stored in the
  given cache, as its youngest entry, and every other cache is as before. When the
  status is not 200, when the fetch rejects and when it never settles, nothing is stored.
  The put is not awaited, and no order between the store and the return is stated.
\<close>

theorem cacheFirst_lookup_all_caches:
  "(caches_match (caches w) (request_key req) = Some c \<longrightarrow>
      cacheFirst req cacheName w = (Fulfilled c, w))
   \<and> (caches_match (caches w) (request_key req) = None \<longrightarrow>
        fetched (snd (cacheFirst req cacheName w)) = fetched w @ [req])
   \<and> (caches_match (caches w) (request_key req) = None \<longrightarrow> net w req = Responds r \<longrightarrow>
        fst (cacheFirst req cacheName w) = Fulfilled r
        \<and> (status r = 200 \<longrightarrow>
             cache_entries cacheName (caches (snd (cacheFirst req cacheName w))) =
               put_entry (request_key req) r (cache_entries cacheName (caches w))
             \<and> (m \<noteq> cacheName \<longrightarrow>
                  cache_entries m (caches (snd (cacheFirst req cacheName w))) =
                    cache_entries m (caches w)))
        \<and> (status r \<noteq> 200 \<longrightarrow> caches (snd (cacheFirst req cacheName w)) = caches w))
   \<and> (net w req = Rejects \<or> net w req = Stalls \<longrightarrow>
        caches (snd (cacheFirst req cacheName w)) = caches w)
   \<and> (caches (snd (cacheFirst req cacheName w)) \<noteq> caches w \<longrightarrow>
        caches_match (caches w) (request_key req) = None
        \<and> (\<exists>networkResponse. net w req = Responds networkResponse
                                \<and> status networkResponse = 200))"
proof -
  have stored: "caches_match (caches w) (request_key req) = None \<longrightarrow> net w req = Responds r \<longrightarrow>
        fst (cacheFirst req cacheName w) = Fulfilled r
        \<and> (status r = 200 \<longrightarrow>
             cache_entries cacheName (caches (snd (cacheFirst req cacheName w))) =
               put_entry (request_key req) r (cache_entries cacheName (caches w))
             \<and> (m \<noteq> cacheName \<longrightarrow>
                  cache_entries m (caches (snd (cacheFirst req cacheName w))) =
                    cache_entries m (caches w)))
        \<and> (status r \<noteq> 200 \<longrightarrow> caches (snd (cacheFirst req cacheName w)) = caches w)"
    by (simp add: cacheFirst_def fetch_def cache_entries_update_same cache_entries_update_other)
  have hit: "caches_match (caches w) (request_key req) = Some c \<longrightarrow>
      cacheFirst req cacheName w = (Fulfilled c, w)"
    by (simp add: cacheFirst_def)
  have fetched_once: "caches_match (caches w) (request_key req) = None \<longrightarrow>
        fetched (snd (cacheFirst req cacheName w)) = fetched w @ [req]"
    by (cases "net w req")
       (simp_all add: cacheFirst_def fetch_def Let_def split: option.splits)
  have unsettled: "net w req = Rejects \<or> net w req = Stalls \<longrightarrow>
        caches (snd (cacheFirst req cacheName w)) = caches w"
    by (cases "caches_match (caches w) (request_key req)")
       (auto simp: cacheFirst_def fetch_def Let_def split: option.splits)
  have only_200: "caches (snd (cacheFirst req cacheName w)) \<noteq> caches w \<longrightarrow>
        caches_match (caches w) (request_key req) = None
        \<and> (\<exists>networkResponse. net w req = Responds networkResponse
                                \<and> status networkResponse = 200)"
    by (cases "net w req"; cases "caches_match (caches w) (request_key req)")
       (simp_all add: cacheFirst_def fetch_def Let_def split: option.splits)
  show ?thesis
    using hit fetched_once stored unsettled only_200 by blast
qed

text \<open>
  A hit in another cache than the given one; a miss and a 200, which is stored; a miss and
  a fetch that rejects, which stores nothing.
\<close>

theorem cacheFirst_lookup_all_caches_witness:
  "caches_match (caches shadow_world) (request_key app_js) = Some (ok_response ''old'')
   \<and> cacheFirst app_js (STATIC_CACHE ''v1'') shadow_world = (Fulfilled (ok_response ''old''), shadow_world)
   \<and> caches_match (caches online_world) (request_key app_js) = None
   \<and> net online_world app_js = Responds (ok_response ''/app.js'')
   \<and> status (ok_response ''/app.js'') = 200
   \<and> fst (cacheFirst app_js (STATIC_CACHE ''v1'') online_world) = Fulfilled (ok_response ''/app.js'')
   \<and> fetched (snd (cacheFirst app_js (STATIC_CACHE ''v1'') online_world)) = [app_js]
   \<and> cache_entries (STATIC_CACHE ''v1'') (caches (snd (cacheFirst app_js (STATIC_CACHE ''v1'') online_world)))
       = [(request_key app_js, ok_response ''/app.js'')]
   \<and> net offline_world app_js = Rejects
   \<and> caches (snd (cacheFirst app_js (STATIC_CACHE ''v1'') offline_world)) = caches offline_world"
proof -
  have n: "net online_world app_js = Responds (ok_response ''/app.js'')"
    by (simp add: online_net app_js_def get_request_def)
  have f: "fetched online_world = []" "cache_entries (STATIC_CACHE ''v1'') (caches online_world) = []"
    by (simp_all add: online_world_def offline_world_def cache_entries_def)
  show ?thesis
    using cacheFirst_lookup_all_caches [of shadow_world app_js "ok_response ''old''" "STATIC_CACHE ''v1''"]
      cacheFirst_lookup_all_caches [of online_world app_js _ "STATIC_CACHE ''v1''" "ok_response ''/app.js''"]
      cacheFirst_lookup_all_caches [of offline_world app_js _ "STATIC_CACHE ''v1''"]
    by (simp add: shadow_match online_match n f ok_response_def put_entry_def offline_facts(1))
qed

text \<open>
  C2 as stated says the lookup is in the target cache, so that a miss there fetches. Here
  the static cache has no entry for the script, the dynamic cache has one, and the network
  would answer: cache-first returns the entry of the dynamic cache and fetches nothing.
\<close>

theorem cacheFirst_target_miss_counterexample:
  "map_of (cache_entries (STATIC_CACHE ''v1'') (caches shadow_world)) (request_key app_js) = None
   \<and> net shadow_world app_js = Responds (ok_response ''/app.js'')
   \<and> fst (cacheFirst app_js (STATIC_CACHE ''v1'') shadow_world) = Fulfilled (ok_response ''old'')
   \<and> fetched (snd (cacheFirst app_js (STATIC_CACHE ''v1'') shadow_world)) = []"
proof -
  have "map_of (cache_entries (STATIC_CACHE ''v1'') (caches shadow_world)) (request_key app_js) = None"
    by (simp add: shadow_world_def cache_entries_def STATIC_CACHE_def)
  moreover have "net shadow_world app_js = Responds (ok_response ''/app.js'')"
    by (simp add: shadow_net app_js_def get_request_def)
  moreover have "cacheFirst app_js (STATIC_CACHE ''v1'') shadow_world
      = (Fulfilled (ok_response ''old''), shadow_world)"
    by (simp add: cacheFirst_def shadow_match)
  ultimately show ?thesis by (simp add: shadow_fetched)
qed

subsection \<open>C3: network-first\<close>

text \<open>
  C3. Network-first returns what the network answers; when the fetch rejects it returns
  the cached copy if there is one, and else the synthesized response of status 503 and
  body \<open>Offline\<close>, which it therefore returns only when the network rejects and no cache
  holds the request. Its promise never rejects.
\<close>

theorem networkFirst_offline:
  "fst (networkFirst req cacheName w) =
     (case net w req of
        Responds networkResponse \<Rightarrow> Fulfilled networkResponse
      | Stalls \<Rightarrow> Pending
      | Rejects \<Rightarrow>
          (case caches_match (caches w) (request_key req) of
             Some cachedResponse \<Rightarrow> Fulfilled cachedResponse
           | None \<Rightarrow> Fulfilled \<lparr>status = 503, body = ''Offline''\<rparr>))
   \<and> fst (networkFirst req cacheName w) \<noteq> Rejected"
  by (cases "net w req"; cases "caches_match (caches w) (request_key req)")
     (simp_all add: networkFirst_def fetch_def case_prod_unfold Let_def console_log_def Offline_503_def)

theorem networkFirst_offline_witness:
  "fst (networkFirst api_users (DYNAMIC_CACHE ''v1'') offline_world) =
     Fulfilled \<lparr>status = 503, body = ''Offline''\<rparr>
   \<and> fst (networkFirst logo (DYNAMIC_CACHE ''v1'') (stalled_world\<lparr>net := \<lambda>req. Rejects\<rparr>)) =
     Fulfilled (ok_response ''stale'')"
  using networkFirst_offline [of api_users "DYNAMIC_CACHE ''v1''" offline_world]
    networkFirst_offline [of logo "DYNAMIC_CACHE ''v1''" "stalled_world\<lparr>net := \<lambda>req. Rejects\<rparr>"]
  by (simp add: offline_facts stalled_facts(3))

subsection \<open>C4: stale-while-revalidate\<close>



subsection \<open>C5: first in, first out\<close>

text \<open>
  C5. Eviction is first in, first out. In a cache with distinct keys and no rejecting
  deletion, \<open>limitCacheSize\<close> removes the oldest \<open>count - limit\<close> entries (none when the
  count is within the limit) and keeps the youngest ones in order; the count afterwards
  is the smaller of the count and the limit, and the pass fulfils.
\<close>

theorem limitCacheSize_fifo:
  assumes "distinct (cache_keys cacheName (caches w))"
    and "\<forall>k \<in> set (cache_keys cacheName (caches w)). \<not> delete_rejects w cacheName k"
  shows "cache_entries cacheName (caches w) =
           take (length (cache_entries cacheName (caches w)) - maxItems) (cache_entries cacheName (caches w))
           @ cache_entries cacheName (caches (snd (limitCacheSize cacheName maxItems w)))
       \<and> cache_entries cacheName (caches (snd (limitCacheSize cacheName maxItems w))) =
           drop (length (cache_entries cacheName (caches w)) - maxItems) (cache_entries cacheName (caches w))
       \<and> length (cache_entries cacheName (caches (snd (limitCacheSize cacheName maxItems w)))) =
           min maxItems (length (cache_entries cacheName (caches w)))
       \<and> fst (limitCacheSize cacheName maxItems w) = Fulfilled ()"
proof -
  let ?es = "cache_entries cacheName (caches w)"
  let ?d = "length ?es - maxItems"
  have td: "toDelete cacheName maxItems w = take ?d (map fst ?es)"
    by (simp add: toDelete_def cache_keys_def)
  have "set (toDelete cacheName maxItems w) \<subseteq> set (cache_keys cacheName (caches w))"
    unfolding toDelete_def by (rule set_take_subset)
  with assms(2) have nr: "\<forall>k \<in> set (toDelete cacheName maxItems w). \<not> delete_rejects w cacheName k"
    by blast
  have "surviving (delete_rejects w cacheName) (toDelete cacheName maxItems w) ?es
      = filter (\<lambda>e. fst e \<notin> set (toDelete cacheName maxItems w)) ?es"
    unfolding surviving_def using assms(2)
    by (intro filter_cong refl) (auto simp: cache_keys_def)
  also have "\<dots> = drop ?d ?es"
    unfolding td using assms(1) by (intro filter_oldest) (simp add: cache_keys_def)
  finally have e: "cache_entries cacheName (caches (snd (limitCacheSize cacheName maxItems w))) = drop ?d ?es"
    by (simp add: limitCacheSize_entries)
  have p: "fst (limitCacheSize cacheName maxItems w) = Fulfilled ()"
    using nr by (simp add: limitCacheSize_promise)
  show ?thesis unfolding e using p by (simp add: min_def)
qed

text \<open>Entries written in the order A, B, C, D and limit 2: C and D remain.\<close>

theorem limitCacheSize_fifo_witness:
  "distinct (cache_keys ''images-v1'' (caches abcd_world))
   \<and> list_all (\<lambda>k. \<not> delete_rejects abcd_world ''images-v1'' k) (cache_keys ''images-v1'' (caches abcd_world))
   \<and> cache_entries ''images-v1'' (caches (snd (limitCacheSize ''images-v1'' 2 abcd_world))) =
       [(url_key ''/c.png'', ok_response ''C''), (url_key ''/d.png'', ok_response ''D'')]"
proof -
  have e: "cache_entries ''images-v1'' (caches abcd_world) =
     [(url_key ''/a.png'', ok_response ''A''), (url_key ''/b.png'', ok_response ''B''),
      (url_key ''/c.png'', ok_response ''C''), (url_key ''/d.png'', ok_response ''D'')]"
    by (simp add: abcd_caches cache_entries_def)
  have h1: "distinct (cache_keys ''images-v1'' (caches abcd_world))"
    by (simp add: cache_keys_def e url_key_def)
  have h2: "\<forall>k \<in> set (cache_keys ''images-v1'' (caches abcd_world)). \<not> delete_rejects abcd_world ''images-v1'' k"
    by (simp add: abcd_env)
  have "cache_entries ''images-v1'' (caches (snd (limitCacheSize ''images-v1'' 2 abcd_world))) =
      drop (length (cache_entries ''images-v1'' (caches abcd_world)) - 2)
        (cache_entries ''images-v1'' (caches abcd_world))"
    using limitCacheSize_fifo [OF h1 h2, of 2] by (elim conjE)
  then show ?thesis
    using h1 h2 by (simp add: e list_all_iff)
qed

subsection \<open>C6: the purge on activation\<close>

text \<open>
  C6. Activation deletes exactly the caches whose name starts with \<open>static-\<close>,
  \<open>dynamic-\<close> or \<open>images-\<close> and continues with something else than the current version;
  every other cache stays, with its entries, in its place.
\<close>

theorem activate_purges_stale_versions:
  "caches (activate_handler ver w) =
     filter (\<lambda>(cacheName, c). \<not> stale_version ver cacheName) (caches w)"
proof -
  have "caches (activate_handler ver w) =
      filter (\<lambda>(m, c). m \<notin> set (old_caches ver (map fst (caches w)))) (caches w)"
    by (simp add: activate_handler_def Let_def caches_fold_delete_logged)
  also have "\<dots> = filter (\<lambda>(cacheName, c). \<not> stale_version ver cacheName) (caches w)"
    by (intro filter_cong refl) (force simp: old_caches_iff)
  finally show ?thesis .
qed

text \<open>
  With \<open>static-v1\<close>, \<open>dynamic-v1\<close>, \<open>images-v1\<close>, \<open>unrelated-foo\<close> and \<open>static-v2\<close>
  present, activating version \<open>v2\<close> leaves \<open>unrelated-foo\<close> and \<open>static-v2\<close>.
\<close>

theorem activate_purges_stale_versions_witness:
  "caches (activate_handler ''v2'' purge_world) =
     [(''unrelated-foo'', [(url_key ''/x'', ok_response ''x'')]),
      (''static-v2'', [(url_key ''/'', ok_response ''home2'')])]"
  using activate_purges_stale_versions [of "''v2''" purge_world]
  by (simp add: purge_caches stale_version_def role_prefixes_def startsWith_def)

subsection \<open>C7: the message CLEAR_CACHE\<close>

text \<open>
  C7, as the code has it. On a message of type \<open>CLEAR_CACHE\<close> the worker deletes every
  cache of the storage, whatever its name and version; on any other message the caches
  stay as they are.
\<close>

theorem clear_cache_deletes_all:
  "caches (message_handler (Some ''CLEAR_CACHE'') w) = []
   \<and> (msg \<noteq> Some ''CLEAR_CACHE'' \<longrightarrow> caches (message_handler msg w) = caches w)"
  by (simp add: clear_cache_caches) (simp add: message_handler_def Let_def)

theorem clear_cache_deletes_all_witness:
  "caches (message_handler (Some ''CLEAR_CACHE'') purge_world) = []
   \<and> Some ''SKIP_WAITING'' \<noteq> Some ''CLEAR_CACHE''
   \<and> caches (message_handler (Some ''SKIP_WAITING'') purge_world) = caches purge_world"
  using clear_cache_deletes_all [of purge_world "Some ''SKIP_WAITING''"]
  by simp

text \<open>
  C7 as stated says that caches without a role prefix are not deleted. The cache
  \<open>unrelated-foo\<close> has none of the three prefixes and is gone after the message.
\<close>

theorem clear_cache_unrelated_counterexample:
  "has_cache ''unrelated-foo'' (caches purge_world)
   \<and> \<not> list_ex (startsWith ''unrelated-foo'') role_prefixes
   \<and> \<not> has_cache ''unrelated-foo'' (caches (message_handler (Some ''CLEAR_CACHE'') purge_world))"
  by (simp add: clear_cache_caches purge_caches has_cache_def role_prefixes_def startsWith_def)

subsection \<open>C8: install\<close>




subsection \<open>C9: a deletion that fails during eviction\<close>

text \<open>
  C9, as the code has it. \<open>limitCacheSize\<close> logs nothing. Every key of \<open>toDelete\<close> whose
  deletion does not reject is deleted, whether or not another deletion rejects; the
  promise of the pass rejects exactly when one deletion rejects. That promise is dropped
  by network-first and by the fetch of stale-while-revalidate, which return the response
  of the network all the same.
\<close>

theorem limitCacheSize_rejected_deletion:
  "console (snd (limitCacheSize cacheName maxItems w)) = console w
   \<and> cache_entries cacheName (caches (snd (limitCacheSize cacheName maxItems w))) =
       filter (\<lambda>e. fst e \<notin> set (toDelete cacheName maxItems w) \<or> delete_rejects w cacheName (fst e))
         (cache_entries cacheName (caches w))
   \<and> (fst (limitCacheSize cacheName maxItems w) = Rejected \<longleftrightarrow>
        (\<exists>k \<in> set (toDelete cacheName maxItems w). delete_rejects w cacheName k))
   \<and> (net w req = Responds r \<longrightarrow>
        fst (networkFirst req cacheName w) = Fulfilled r
        \<and> fst (fetchPromise req cacheName w) = Fulfilled r)"
  by (simp add: limitCacheSize_entries limitCacheSize_promise surviving_def
      networkFirst_def fetchPromise_def fetch_def case_prod_unfold Let_def)

theorem limitCacheSize_rejected_deletion_witness:
  "fst (limitCacheSize ''images-v1'' 2 faulty_world) = Rejected
   \<and> console (snd (limitCacheSize ''images-v1'' 2 faulty_world)) = []
   \<and> cache_entries ''images-v1'' (caches (snd (limitCacheSize ''images-v1'' 2 faulty_world))) =
       [(url_key ''/a.png'', ok_response ''A''), (url_key ''/c.png'', ok_response ''C''),
        (url_key ''/d.png'', ok_response ''D'')]"
  using limitCacheSize_rejected_deletion [of "''images-v1''" 2 faulty_world]
  by (simp add: faulty_toDelete faulty_facts(2,3) faulty_entries url_key_eq)

text \<open>
  C9 as stated says the failure is logged. The deletion of the oldest key rejects, the
  pass rejects, and the console is as before.
\<close>

theorem deletion_failure_logged_counterexample:
  "delete_rejects faulty_world ''images-v1'' (url_key ''/a.png'')
   \<and> toDelete ''images-v1'' 2 faulty_world = [url_key ''/a.png'', url_key ''/b.png'']
   \<and> fst (limitCacheSize ''images-v1'' 2 faulty_world) = Rejected
   \<and> console (snd (limitCacheSize ''images-v1'' 2 faulty_world)) = console faulty_world"
  by (simp add: faulty_toDelete limitCacheSize_promise faulty_facts)

subsection \<open>C10: a response that is not a 200\<close>

text \<open>
  C10, as the code has it. When the network answers with a status other than 200, none of
  the three strategies changes the cache storage. Network-first returns that response.
  Cache-first and stale-while-revalidate return it when no cache holds the request, and
  return the cached response when one does.
\<close>

theorem non_200_leaves_caches:
  assumes "net w req = Responds r" and "status r \<noteq> 200"
  shows "fst (networkFirst req cacheName w) = Fulfilled r
       \<and> caches (snd (networkFirst req cacheName w)) = caches w
       \<and> caches (snd (cacheFirst req cacheName w)) = caches w
       \<and> caches (snd (staleWhileRevalidate req cacheName w)) = caches w
       \<and> (caches_match (caches w) (request_key req) = None \<longrightarrow>
            fst (cacheFirst req cacheName w) = Fulfilled r
            \<and> fst (staleWhileRevalidate req cacheName w) = Fulfilled r)
       \<and> (caches_match (caches w) (request_key req) = Some c \<longrightarrow>
            fst (cacheFirst req cacheName w) = Fulfilled c
            \<and> fst (staleWhileRevalidate req cacheName w) = Fulfilled c)"
  using assms
  by (simp add: networkFirst_def cacheFirst_def staleWhileRevalidate_def fetchPromise_def
      fetch_def case_prod_unfold Let_def split: option.splits)

theorem non_200_leaves_caches_witness:
  "net not_found_world api_users = Responds not_found
   \<and> status not_found \<noteq> 200
   \<and> fst (networkFirst api_users (DYNAMIC_CACHE ''v1'') not_found_world) = Fulfilled not_found
   \<and> fst (cacheFirst api_users (STATIC_CACHE ''v1'') not_found_world) = Fulfilled not_found
   \<and> fst (staleWhileRevalidate api_users (IMAGE_CACHE ''v1'') not_found_world) = Fulfilled not_found
   \<and> caches (snd (networkFirst api_users (DYNAMIC_CACHE ''v1'') not_found_world)) = caches not_found_world
   \<and> caches (snd (cacheFirst api_users (STATIC_CACHE ''v1'') not_found_world)) = caches not_found_world
   \<and> caches (snd (staleWhileRevalidate api_users (IMAGE_CACHE ''v1'') not_found_world)) = caches not_found_world"
proof -
  have h1: "net not_found_world api_users = Responds not_found"
    by (simp add: not_found_facts)
  have h2: "status not_found \<noteq> 200"
    by (simp add: not_found_def)
  show ?thesis
    using h1 h2 non_200_leaves_caches [OF h1 h2]
    by (simp add: not_found_facts(4))
qed

text \<open>
  C10 as stated says every strategy returns the response of the network. With a cached
  image and a network that answers 404, stale-while-revalidate returns the cached image.
\<close>

theorem non_200_returned_counterexample:
  "net not_found_world logo = Responds not_found
   \<and> status not_found \<noteq> 200
   \<and> fst (staleWhileRevalidate logo (IMAGE_CACHE ''v1'') not_found_world) = Fulfilled (ok_response ''stale'')
   \<and> fst (staleWhileRevalidate logo (IMAGE_CACHE ''v1'') not_found_world) \<noteq> Fulfilled not_found"
  by (simp add: staleWhileRevalidate_def fetchPromise_def fetch_def not_found_facts(1,3)
      not_found_def ok_response_def)

end
